theory Spec2Isabelle
  imports Complex_Main "HOL-Library.AList"
begin

section \<open>Strings\<close>

text \<open>
  The inventory component is embedded from \<^verbatim>\<open>src/unnamed/part_000\<close>, the revision of
  \<^verbatim>\<open>inventory.component.ts\<close> that carries the duplicate handling. In the earlier
  revision under \<^verbatim>\<open>src/frontend\<close>, \<open>onFileSelected\<close>, \<open>startEdit\<close>, \<open>cancelEdit\<close> and
  \<open>saveEdit\<close> are the same, \<open>deleteRow\<close> has no counters to adjust and \<open>confirmUpload\<close>
  sends no duplicate action.

  The component compares names and file extensions through \<^verbatim>\<open>toLowerCase\<close> and
  \<^verbatim>\<open>trim\<close>. A string is a list of code units, and a \<^typ>\<open>char\<close> of the model is a
  code unit from U+0000 to U+00FF, the value of \<^const>\<open>of_char\<close>. On these code units
  \<open>toLowerCase\<close> and \<open>trim\<close> are those of ECMAScript: the capitals are A to Z, U+00C0 to
  U+00D6 and U+00D8 to U+00DE, each 32 below its small letter, and the white space and line
  terminators are tab, line feed, vertical tab, form feed, carriage return, space and the
  no-break space U+00A0. Strings with a code unit above U+00FF cannot be written in the
  model.
\<close>

definition toLowerChar :: "char \<Rightarrow> char" where
  "toLowerChar c =
     (let n = (of_char c :: nat) in
      if (65 \<le> n \<and> n \<le> 90) \<or> (192 \<le> n \<and> n \<le> 214) \<or> (216 \<le> n \<and> n \<le> 222)
      then char_of (n + 32) else c)"

definition toLowerCase :: "string \<Rightarrow> string" where
  "toLowerCase s = map toLowerChar s"

definition isWhiteSpace :: "char \<Rightarrow> bool" where
  "isWhiteSpace c = ((of_char c :: nat) \<in> {9, 10, 11, 12, 13, 32, 160})"

definition trim :: "string \<Rightarrow> string" where
  "trim s = rev (dropWhile isWhiteSpace (rev (dropWhile isWhiteSpace s)))"

text \<open>
  The same two notions once more, as the tables of the standard read: the white space
  characters one by one, and the capitals with their small letters in the same order. The
  properties below are stated against these tables.
\<close>

definition whiteSpace :: "char list" where
  "whiteSpace = [CHR 0x09, CHR 0x0A, CHR 0x0B, CHR 0x0C, CHR 0x0D, CHR 0x20, CHR 0xA0]"

definition capitals :: string where
  "capitals = ''ABCDEFGHIJKLMNOPQRSTUVWXYZ'' @
     [CHR 0xC0, CHR 0xC1, CHR 0xC2, CHR 0xC3, CHR 0xC4, CHR 0xC5, CHR 0xC6, CHR 0xC7,
      CHR 0xC8, CHR 0xC9, CHR 0xCA, CHR 0xCB, CHR 0xCC, CHR 0xCD, CHR 0xCE, CHR 0xCF,
      CHR 0xD0, CHR 0xD1, CHR 0xD2, CHR 0xD3, CHR 0xD4, CHR 0xD5, CHR 0xD6,
      CHR 0xD8, CHR 0xD9, CHR 0xDA, CHR 0xDB, CHR 0xDC, CHR 0xDD, CHR 0xDE]"

definition smalls :: string where
  "smalls = ''abcdefghijklmnopqrstuvwxyz'' @
     [CHR 0xE0, CHR 0xE1, CHR 0xE2, CHR 0xE3, CHR 0xE4, CHR 0xE5, CHR 0xE6, CHR 0xE7,
      CHR 0xE8, CHR 0xE9, CHR 0xEA, CHR 0xEB, CHR 0xEC, CHR 0xED, CHR 0xEE, CHR 0xEF,
      CHR 0xF0, CHR 0xF1, CHR 0xF2, CHR 0xF3, CHR 0xF4, CHR 0xF5, CHR 0xF6,
      CHR 0xF8, CHR 0xF9, CHR 0xFA, CHR 0xFB, CHR 0xFC, CHR 0xFD, CHR 0xFE]"

definition lowered :: "char \<Rightarrow> char" where
  "lowered c = (case map_of (zip capitals smalls) c of Some d \<Rightarrow> d | None \<Rightarrow> c)"

text \<open>A string with no white space at either end.\<close>

definition trimmed :: "string \<Rightarrow> bool" where
  "trimmed c = (c = [] \<or> (hd c \<notin> set whiteSpace \<and> last c \<notin> set whiteSpace))"

text \<open>\<^verbatim>\<open>s.lastIndexOf(c)\<close>: the index of the last occurrence, \<open>-1\<close> when there is none.\<close>

fun lastIndexOf :: "string \<Rightarrow> char \<Rightarrow> int" where
  "lastIndexOf [] c = -1"
| "lastIndexOf (x # xs) c =
     (let i = lastIndexOf xs c in
      if 0 \<le> i then i + 1 else if x = c then 0 else -1)"

text \<open>\<^verbatim>\<open>s.substring(i)\<close>: a negative start counts as 0, one beyond the end as the length.\<close>

definition substring :: "string \<Rightarrow> int \<Rightarrow> string" where
  "substring s i = drop (nat (max 0 i)) s"

section \<open>Values and objects\<close>

text \<open>
  The values that travel between server and client are JSON values. An object is an
  association list in insertion order; reading a property is \<^const>\<open>map_of\<close> (\<open>None\<close> for
  \<^verbatim>\<open>undefined\<close>), assigning one is \<^const>\<open>AList.update\<close>, which overwrites in place or
  appends, as a JavaScript assignment does. Numbers are carried, never computed with, so a
  rational stands for the parsed number.
\<close>

datatype json =
    JNull
  | JBool bool
  | JNum rat
  | JStr string
  | JArr "json list"
  | JObj "(string \<times> json) list"

type_synonym PreviewRow = "(string \<times> json) list"

text \<open>\<^verbatim>\<open>{ ...row }\<close>: a new object with the same own properties (a shallow copy).\<close>

definition spread :: "PreviewRow \<Rightarrow> PreviewRow" where
  "spread row = row"

text \<open>\<^verbatim>\<open>Object.assign(target, source)\<close>: every own property of the source is assigned to
  the target, in the source's order; properties only the target has stay.\<close>

definition Object_assign :: "PreviewRow \<Rightarrow> PreviewRow \<Rightarrow> PreviewRow" where
  "Object_assign target source = fold (\<lambda>(k, v). AList.update k v) source target"

text \<open>\<^verbatim>\<open>JSON.parse(JSON.stringify(rows))\<close> on rows that were themselves parsed from JSON:
  new objects with the same contents, shared with nothing.\<close>

definition deepCopy :: "PreviewRow list \<Rightarrow> PreviewRow list" where
  "deepCopy rows = rows"

section \<open>The component state\<close>

record File =
  file_name :: string
  file_size :: nat

record SheetInfo =
  sheet_name :: string
  sheet_rows :: int
  sheet_columns :: "string list"
  is_valid :: bool
  sheet_errors :: "string list"

record CatalogEntry =
  entry_id :: int
  entry_name :: string
  entry_description :: string
  entry_price :: json
  entry_quantity :: json

record NewItem =
  new_name :: string
  new_description :: string
  new_price :: json
  new_quantity :: json

record UploadStats =
  stat_created :: int
  stat_updated :: int
  stat_skipped :: int
  stat_errors :: int

datatype ReadyState = CONNECTING | OPEN | CLOSING | CLOSED

text \<open>A socket: its state and the messages handed to \<^verbatim>\<open>send\<close>, oldest first. A message is
  kept as the value given to \<^verbatim>\<open>JSON.stringify\<close>.\<close>

record WebSocket =
  readyState :: ReadyState
  sent :: "json list"

text \<open>The texts shown to the operator, one constructor for each text of the source
  (\<open>NoMessage\<close> is the empty string); the two that interpolate values keep the values:
  the file size, and the name and price of the existing product.\<close>

datatype Message =
    NoMessage
  | InvalidExcelFile
  | FileTooLarge nat
  | NoConnection
  | AlreadyExists string json

datatype ApiCall =
    GetItems
  | AddItem NewItem
  | AnalyzeExcel File
  | ValidateDuplicates File string

datatype Timer =
    ClearGeneralError
  | ClearDuplicateWarning
  | RetryConfirmUpload

text \<open>
  Rows are objects shared between \<open>previewData\<close>, \<open>editingRow\<close> and the template, so
  they live in a store: \<open>heap\<close> is the list of row objects ever created, a reference is an
  index into it. \<open>originalPreviewData\<close> and \<open>editingRowCopy\<close> hold copies that nothing
  else refers to, so they are kept as values. \<open>requests\<close> collects the calls made on the
  \<^verbatim>\<open>ApiService\<close>, \<open>scheduled\<close> the \<^verbatim>\<open>setTimeout\<close> callbacks with their delays (they
  are recorded, not run), \<open>fileInput\<close> is the value of the file input element of the event.
\<close>

type_synonym ref = nat

record Component =
  heap :: "PreviewRow list"
  requests :: "ApiCall list"
  scheduled :: "(nat \<times> Timer) list"
  fileInput :: string
  items :: "CatalogEntry list"
  newItem :: NewItem
  duplicateWarning :: Message
  ws :: "WebSocket option"
  showExcelModal :: bool
  selectedFile :: "File option"
  fileName :: string
  fileSize :: nat
  sheets :: "SheetInfo list"
  selectedSheet :: string
  showSheetSelector :: bool
  showPreview :: bool
  previewData :: "ref list"
  originalPreviewData :: "PreviewRow list"
  totalRows :: int
  columns :: "string list"
  hasDuplicates :: bool
  duplicatesCount :: int
  newProductsCount :: int
  showDuplicatesModal :: bool
  selectedDuplicateAction :: string
  editingRow :: "ref option"
  editingRowCopy :: "PreviewRow option"
  isUploading :: bool
  uploadProgress :: int
  uploadMessage :: string
  uploadStats :: UploadStats
  errors :: "string list"
  generalError :: Message

text \<open>The field initialisers of the class, before any row object exists.\<close>

definition initial :: Component where
  "initial =
     \<lparr>heap = [], requests = [], scheduled = [], fileInput = [],
      items = [],
      newItem = \<lparr>new_name = [], new_description = [], new_price = JNum 0, new_quantity = JNum 0\<rparr>,
      duplicateWarning = NoMessage,
      ws = None,
      showExcelModal = False,
      selectedFile = None, fileName = [], fileSize = 0,
      sheets = [], selectedSheet = [], showSheetSelector = False,
      showPreview = False, previewData = [], originalPreviewData = [], totalRows = 0,
      columns = [],
      hasDuplicates = False, duplicatesCount = 0, newProductsCount = 0,
      showDuplicatesModal = False, selectedDuplicateAction = ''skip'',
      editingRow = None, editingRowCopy = None,
      isUploading = False, uploadProgress = 0, uploadMessage = [],
      uploadStats = \<lparr>stat_created = 0, stat_updated = 0, stat_skipped = 0, stat_errors = 0\<rparr>,
      errors = [], generalError = NoMessage\<rparr>"

section \<open>Adding a product: the duplicate check\<close>

text \<open>The key \<^verbatim>\<open>name.toLowerCase().trim()\<close> that \<open>addItem\<close> computes for the new name
  and for every listed product.\<close>

definition nameToCheck :: "string \<Rightarrow> string" where
  "nameToCheck n = trim (toLowerCase n)"

definition existingProduct :: "CatalogEntry list \<Rightarrow> string \<Rightarrow> CatalogEntry option" where
  "existingProduct its n = List.find (\<lambda>item. trim (toLowerCase (entry_name item)) = nameToCheck n) its"

definition addItem :: "Component \<Rightarrow> Component" where
  "addItem s =
     (if new_name (newItem s) = [] \<or> new_description (newItem s) = [] then s
      else case existingProduct (items s) (new_name (newItem s)) of
        Some e \<Rightarrow>
          s\<lparr>duplicateWarning := AlreadyExists (entry_name e) (entry_price e),
            scheduled := scheduled s @ [(5000, ClearDuplicateWarning)]\<rparr>
      | None \<Rightarrow> s\<lparr>requests := requests s @ [AddItem (newItem s)]\<rparr>)"

text \<open>The normal form in the words of the specification: trim, then lowercase.\<close>

definition normalize :: "string \<Rightarrow> string" where
  "normalize n = toLowerCase (trim n)"

section \<open>Selecting a file\<close>

definition showError :: "Component \<Rightarrow> Message \<Rightarrow> Component" where
  "showError s message =
     s\<lparr>generalError := message, scheduled := scheduled s @ [(5000, ClearGeneralError)]\<rparr>"

definition analyzeFile :: "Component \<Rightarrow> Component" where
  "analyzeFile s =
     (case selectedFile s of
        None \<Rightarrow> s
      | Some f \<Rightarrow> s\<lparr>requests := requests s @ [AnalyzeExcel f]\<rparr>)"

definition validExtensions :: "string list" where
  "validExtensions = [''.xls'', ''.xlsx'']"

definition fileExtension :: "File \<Rightarrow> string" where
  "fileExtension file =
     toLowerCase (substring (file_name file) (lastIndexOf (file_name file) CHR ''.''))"

definition maxSize :: nat where
  "maxSize = 10 * 1024 * 1024"

text \<open>\<open>onFileSelected\<close> on the first file of the event, \<open>None\<close> when the event has none.\<close>

definition onFileSelected :: "Component \<Rightarrow> File option \<Rightarrow> Component" where
  "onFileSelected s fo =
     (case fo of
        None \<Rightarrow> s
      | Some file \<Rightarrow>
          if fileExtension file \<notin> set validExtensions then
            (showError s InvalidExcelFile)\<lparr>fileInput := []\<rparr>
          else if file_size file > maxSize then
            (showError s (FileTooLarge (file_size file)))\<lparr>fileInput := []\<rparr>
          else
            analyzeFile
              (s\<lparr>selectedFile := Some file, fileName := file_name file,
                 fileSize := file_size file, errors := [], generalError := NoMessage\<rparr>))"

section \<open>The preview\<close>

record PreviewResponse =
  success :: bool
  preview_rows :: "PreviewRow list"
  total_rows :: int
  response_columns :: "string list"
  has_duplicates :: bool
  duplicates_found :: int
  new_products :: int

definition loadPreviewWithDuplicates :: "Component \<Rightarrow> Component" where
  "loadPreviewWithDuplicates s =
     (case selectedFile s of
        None \<Rightarrow> s
      | Some f \<Rightarrow>
          if selectedSheet s = [] then s
          else s\<lparr>requests := requests s @ [ValidateDuplicates f (selectedSheet s)]\<rparr>)"

text \<open>The \<^verbatim>\<open>next\<close> callback of that request. The rows of the response are new objects:
  they are appended to the store and \<open>previewData\<close> refers to them in order.\<close>

definition loadPreviewWithDuplicates_next :: "Component \<Rightarrow> PreviewResponse \<Rightarrow> Component" where
  "loadPreviewWithDuplicates_next s response =
     (if success response then
        s\<lparr>heap := heap s @ preview_rows response,
          previewData := [length (heap s) ..< length (heap s) + length (preview_rows response)],
          originalPreviewData := deepCopy (preview_rows response),
          totalRows := total_rows response,
          columns := filter (\<lambda>col. col \<noteq> ''temp_id'' \<and> col \<noteq> ''status'' \<and>
                        col \<noteq> ''status_label'' \<and> col \<noteq> ''existing_id'' \<and>
                        col \<noteq> ''existing_data'' \<and> col \<noteq> ''errors'')
                      (response_columns response),
          hasDuplicates := has_duplicates response,
          duplicatesCount := duplicates_found response,
          newProductsCount := new_products response,
          showPreview := True,
          showSheetSelector := False,
          showDuplicatesModal := (if has_duplicates response then True else showDuplicatesModal s)\<rparr>
      else s)"

definition selectDuplicateAction :: "Component \<Rightarrow> string \<Rightarrow> Component" where
  "selectDuplicateAction s action = s\<lparr>selectedDuplicateAction := action\<rparr>"

subsection \<open>Editing a row\<close>

definition startEdit :: "Component \<Rightarrow> ref \<Rightarrow> Component" where
  "startEdit s row = s\<lparr>editingRow := Some row, editingRowCopy := Some (spread (heap s ! row))\<rparr>"

definition cancelEdit :: "Component \<Rightarrow> Component" where
  "cancelEdit s =
     (let s' = (case (editingRow s, editingRowCopy s) of
                  (Some row, Some copy) \<Rightarrow>
                    s\<lparr>heap := (heap s)[row := Object_assign (heap s ! row) copy]\<rparr>
                | _ \<Rightarrow> s)
      in s'\<lparr>editingRow := None, editingRowCopy := None\<rparr>)"

definition saveEdit :: "Component \<Rightarrow> Component" where
  "saveEdit s = s\<lparr>editingRow := None, editingRowCopy := None\<rparr>"

text \<open>What the template (not part of the sources) or any other holder of a row can do to
  its top-level fields: assign one, \<^verbatim>\<open>row[k] = v\<close>, or remove one, \<^verbatim>\<open>delete row[k]\<close>.\<close>

datatype Mutation = Assign string json | Delete string

fun mutate :: "Mutation \<Rightarrow> PreviewRow \<Rightarrow> PreviewRow" where
  "mutate (Assign k v) row = AList.update k v row"
| "mutate (Delete k) row = AList.delete k row"

definition mutateRow :: "Component \<Rightarrow> ref \<Rightarrow> Mutation list \<Rightarrow> Component" where
  "mutateRow s row ms = s\<lparr>heap := (heap s)[row := fold mutate ms (heap s ! row)]\<rparr>"

subsection \<open>Deleting a row\<close>

text \<open>\<^verbatim>\<open>xs.findIndex(p)\<close>: the first index whose element satisfies \<open>p\<close>, else \<open>-1\<close>.\<close>

fun findIndex :: "('a \<Rightarrow> bool) \<Rightarrow> 'a list \<Rightarrow> int" where
  "findIndex p [] = -1"
| "findIndex p (x # xs) =
     (if p x then 0 else (let i = findIndex p xs in if i = -1 then -1 else i + 1))"

text \<open>\<^verbatim>\<open>xs.splice(index, 1)\<close> for an index within the array.\<close>

definition splice1 :: "'a list \<Rightarrow> int \<Rightarrow> 'a list" where
  "splice1 xs index = take (nat index) xs @ drop (nat index + 1) xs"

text \<open>\<open>temp_id\<close> and \<open>status\<close> hold numbers and strings, on which \<^verbatim>\<open>===\<close> is equality
  of the values (two missing properties, both \<^verbatim>\<open>undefined\<close>, are equal too).\<close>

definition deleteRow :: "Component \<Rightarrow> ref \<Rightarrow> Component" where
  "deleteRow s row =
     (let index = findIndex (\<lambda>r. map_of (heap s ! r) ''temp_id'' = map_of (heap s ! row) ''temp_id'')
                    (previewData s)
      in if index > -1 then
           let s1 = s\<lparr>previewData := splice1 (previewData s) index, totalRows := totalRows s - 1\<rparr>
           in if map_of (heap s ! row) ''status'' = Some (JStr ''duplicate'') then
                let s2 = s1\<lparr>duplicatesCount := duplicatesCount s1 - 1\<rparr>
                in if duplicatesCount s2 = 0 then s2\<lparr>hasDuplicates := False\<rparr> else s2
              else if map_of (heap s ! row) ''status'' = Some (JStr ''new'') then
                s1\<lparr>newProductsCount := newProductsCount s1 - 1\<rparr>
              else s1
         else s)"

subsection \<open>Confirming and resetting\<close>

definition connectWebSocket :: "Component \<Rightarrow> Component" where
  "connectWebSocket s = s\<lparr>ws := Some \<lparr>readyState = CONNECTING, sent = []\<rparr>\<rparr>"

text \<open>The object that \<open>confirmUpload\<close> gives to \<^verbatim>\<open>JSON.stringify\<close>.\<close>

definition startUploadMessage :: "Component \<Rightarrow> json" where
  "startUploadMessage s =
     JObj [(''action'', JStr ''start_upload''),
           (''rows'', JArr (map (\<lambda>r. JObj (heap s ! r)) (previewData s))),
           (''duplicate_action'', JStr (selectedDuplicateAction s))]"

definition confirmUpload_retry :: "Component \<Rightarrow> Component" where
  "confirmUpload_retry s =
     (let s1 = connectWebSocket (showError s NoConnection)
      in s1\<lparr>scheduled := scheduled s1 @ [(1000, RetryConfirmUpload)]\<rparr>)"

definition confirmUpload :: "Component \<Rightarrow> Component" where
  "confirmUpload s =
     (case ws s of
        None \<Rightarrow> confirmUpload_retry s
      | Some w \<Rightarrow>
          if readyState w \<noteq> OPEN then confirmUpload_retry s
          else
            s\<lparr>isUploading := True,
              uploadProgress := 0,
              uploadMessage := ''Iniciando carga...'',
              errors := [],
              uploadStats := \<lparr>stat_created = 0, stat_updated = 0, stat_skipped = 0, stat_errors = 0\<rparr>,
              ws := Some (w\<lparr>sent := sent w @ [startUploadMessage s]\<rparr>)\<rparr>)"

definition resetUploadState :: "Component \<Rightarrow> Component" where
  "resetUploadState s =
     s\<lparr>selectedFile := None,
       fileName := [],
       fileSize := 0,
       sheets := [],
       selectedSheet := [],
       showSheetSelector := False,
       showPreview := False,
       previewData := [],
       originalPreviewData := [],
       totalRows := 0,
       columns := [],
       uploadProgress := 0,
       uploadMessage := [],
       uploadStats := \<lparr>stat_created = 0, stat_updated = 0, stat_skipped = 0, stat_errors = 0\<rparr>,
       errors := [],
       generalError := NoMessage,
       isUploading := False,
       hasDuplicates := False,
       duplicatesCount := 0,
       newProductsCount := 0,
       showDuplicatesModal := False,
       selectedDuplicateAction := ''skip''\<rparr>"

definition openExcelUploader :: "Component \<Rightarrow> Component" where
  "openExcelUploader s = resetUploadState (s\<lparr>showExcelModal := True\<rparr>)"

definition closeExcelModal :: "Component \<Rightarrow> Component" where
  "closeExcelModal s = resetUploadState (s\<lparr>showExcelModal := False\<rparr>)"

definition cancelPreview :: "Component \<Rightarrow> Component" where
  "cancelPreview s =
     (let s1 = s\<lparr>showPreview := False,
                 previewData := [],
                 selectedSheet := [],
                 hasDuplicates := False,
                 duplicatesCount := 0,
                 newProductsCount := 0\<rparr>
      in if length (sheets s1) > 1 then s1\<lparr>showSheetSelector := True\<rparr>
         else resetUploadState s1)"

subsection \<open>Start-up\<close>

definition loadItems :: "Component \<Rightarrow> Component" where
  "loadItems s = s\<lparr>requests := requests s @ [GetItems]\<rparr>"

definition ngOnInit :: "Component \<Rightarrow> Component" where
  "ngOnInit s = connectWebSocket (loadItems s)"

text \<open>The browser completes the connection: the socket of the component, if it has one,
  is open from then on (the \<^verbatim>\<open>onopen\<close> handler only logs).\<close>

definition socketOpened :: "Component \<Rightarrow> Component" where
  "socketOpened s = s\<lparr>ws := map_option (\<lambda>w. w\<lparr>readyState := OPEN\<rparr>) (ws s)\<rparr>"

subsection \<open>A session on the preview\<close>

text \<open>The operator's actions on a loaded preview, and a session as the run of a list of
  them.\<close>

datatype PreviewAction =
    StartEdit ref
  | Edit ref "Mutation list"
  | CancelEdit
  | SaveEdit
  | DeleteRow ref

fun perform :: "Component \<Rightarrow> PreviewAction \<Rightarrow> Component" where
  "perform s (StartEdit row) = startEdit s row"
| "perform s (Edit row ms) = mutateRow s row ms"
| "perform s CancelEdit = cancelEdit s"
| "perform s SaveEdit = saveEdit s"
| "perform s (DeleteRow row) = deleteRow s row"

definition session :: "Component \<Rightarrow> PreviewAction list \<Rightarrow> Component" where
  "session s actions = foldl perform s actions"

fun mutatedKey :: "Mutation \<Rightarrow> string" where
  "mutatedKey (Assign k v) = k"
| "mutatedKey (Delete k) = k"

text \<open>The rows a state shows, read through the store.\<close>

definition previewRows :: "Component \<Rightarrow> PreviewRow list" where
  "previewRows s = map (\<lambda>r. heap s ! r) (previewData s)"

subsection \<open>The life of the component\<close>

text \<open>
  What happens to a component between its creation and a commit: the handlers modelled
  above, each called by the operator, by a response or by the browser, in any order. The
  handlers of the class that are left out (the product list and its pages, the sheet
  selector, the progress messages) do not assign \<open>selectedDuplicateAction\<close>.
\<close>

datatype Event =
    NgOnInit
  | SocketOpened
  | OpenExcelUploader
  | CloseExcelModal
  | FileSelected "File option"
  | PreviewLoaded PreviewResponse
  | SelectDuplicateAction string
  | OnPreview PreviewAction
  | CancelPreview
  | ConfirmUpload
  | AddItemClicked

fun step :: "Component \<Rightarrow> Event \<Rightarrow> Component" where
  "step s NgOnInit = ngOnInit s"
| "step s SocketOpened = socketOpened s"
| "step s OpenExcelUploader = openExcelUploader s"
| "step s CloseExcelModal = closeExcelModal s"
| "step s (FileSelected fo) = onFileSelected s fo"
| "step s (PreviewLoaded resp) = loadPreviewWithDuplicates_next s resp"
| "step s (SelectDuplicateAction d) = selectDuplicateAction s d"
| "step s (OnPreview a) = perform s a"
| "step s CancelPreview = cancelPreview s"
| "step s ConfirmUpload = confirmUpload s"
| "step s AddItemClicked = addItem s"

definition run :: "Component \<Rightarrow> Event list \<Rightarrow> Component" where
  "run s evs = foldl step s evs"

text \<open>The three duplicate actions the operator is offered (the comment on the field
  \<open>selectedDuplicateAction\<close> lists them).\<close>

definition duplicateActions :: "string list" where
  "duplicateActions = [''skip'', ''update'', ''create_new'']"

text \<open>The events after which the operator's choice of a duplicate action certainly still
  stands: all but a new choice and those that may reset the upload state.\<close>

fun keepsChoice :: "Event \<Rightarrow> bool" where
  "keepsChoice (SelectDuplicateAction d) = False"
| "keepsChoice OpenExcelUploader = False"
| "keepsChoice CloseExcelModal = False"
| "keepsChoice CancelPreview = False"
| "keepsChoice e = True"

section \<open>The server side\<close>

text \<open>
  Modelled from the spec: the classification of a row by \<open>buildPreview\<close> (Duplicate
  Resolver, section 4.2). The server that computes it is not among the sources. A row whose
  price or quantity is not a non-negative number is an error row; otherwise it is a
  duplicate when its normalized name equals that of a catalog entry, and new when not.
\<close>

definition nonNegativeNumber :: "json option \<Rightarrow> bool" where
  "nonNegativeNumber v = (case v of Some (JNum q) \<Rightarrow> 0 \<le> q | _ \<Rightarrow> False)"

definition rowName :: "PreviewRow \<Rightarrow> string" where
  "rowName row = (case map_of row ''name'' of Some (JStr n) \<Rightarrow> n | _ \<Rightarrow> [])"

definition findByNormalizedName :: "CatalogEntry list \<Rightarrow> string \<Rightarrow> CatalogEntry option" where
  "findByNormalizedName catalog n =
     List.find (\<lambda>e. normalize (entry_name e) = normalize n) catalog"

definition classify :: "CatalogEntry list \<Rightarrow> PreviewRow \<Rightarrow> string" where
  "classify catalog row =
     (if \<not> nonNegativeNumber (map_of row ''price'') \<or> \<not> nonNegativeNumber (map_of row ''quantity'')
      then ''error''
      else if findByNormalizedName catalog (rowName row) \<noteq> None then ''duplicate''
      else ''new'')"

text \<open>
  Modelled from the spec: the Import Orchestrator (section 4.4), which runs on the server
  and is not among the sources. The staged row and the duplicate action are those of
  section 3. The catalog store is a list of entries; a write on behalf of a row raises a
  persistence failure when \<open>fails\<close> says so. Rows are processed one at a time in
  \<open>temp_id\<close> order by the table of section 4.4; a failed write and a duplicate whose
  target has gone are counted as errors and the batch goes on. After each row a progress
  event is emitted, after the last one the single complete event with the final
  aggregates and the accumulated messages.
\<close>

datatype Status = New | Duplicate | Error

datatype DuplicateAction = Skip | Update | CreateNew

record StagedRow =
  temp_id :: nat
  name :: string
  description :: string
  price :: json
  quantity :: json
  status :: Status
  existing_id :: "int option"
  row_message :: string

record Stats =
  created :: nat
  updated :: nat
  skipped :: nat
  errorsCount :: nat

datatype EventType = Progress | Complete | Failure

record ProgressEvent =
  ev_type :: EventType
  ev_step :: string
  ev_progress :: nat
  ev_message :: string
  ev_data :: "(Stats \<times> string list) option"

record Commit =
  catalog :: "CatalogEntry list"
  stats :: Stats
  messages :: "string list"
  processed :: nat
  events :: "ProgressEvent list"

definition find_entry :: "CatalogEntry list \<Rightarrow> int \<Rightarrow> CatalogEntry option" where
  "find_entry cat i = List.find (\<lambda>e. entry_id e = i) cat"

definition create_entry :: "CatalogEntry list \<Rightarrow> StagedRow \<Rightarrow> CatalogEntry list" where
  "create_entry cat row =
     cat @ [\<lparr>entry_id = fold max (map entry_id cat) 0 + 1, entry_name = name row,
              entry_description = description row, entry_price = price row,
              entry_quantity = quantity row\<rparr>]"

definition update_entry :: "CatalogEntry list \<Rightarrow> int \<Rightarrow> StagedRow \<Rightarrow> CatalogEntry list" where
  "update_entry cat i row =
     map (\<lambda>e. if entry_id e = i
              then e\<lparr>entry_description := description row, entry_price := price row,
                     entry_quantity := quantity row\<rparr>
              else e) cat"

definition count_error :: "Commit \<Rightarrow> string \<Rightarrow> Commit" where
  "count_error c msg =
     c\<lparr>stats := (stats c)\<lparr>errorsCount := errorsCount (stats c) + 1\<rparr>,
       messages := messages c @ [msg]\<rparr>"

definition count_created :: "Commit \<Rightarrow> StagedRow \<Rightarrow> Commit" where
  "count_created c row =
     c\<lparr>catalog := create_entry (catalog c) row,
       stats := (stats c)\<lparr>created := created (stats c) + 1\<rparr>\<rparr>"

definition apply_row :: "DuplicateAction \<Rightarrow> (StagedRow \<Rightarrow> bool) \<Rightarrow> Commit \<Rightarrow> StagedRow \<Rightarrow> Commit" where
  "apply_row action fails c row =
     (case status row of
        Error \<Rightarrow> count_error c (row_message row)
      | New \<Rightarrow>
          if fails row then count_error c ''PersistenceError'' else count_created c row
      | Duplicate \<Rightarrow>
          (case action of
             Skip \<Rightarrow> c\<lparr>stats := (stats c)\<lparr>skipped := skipped (stats c) + 1\<rparr>\<rparr>
           | Update \<Rightarrow>
               (case (case existing_id row of None \<Rightarrow> None
                                            | Some i \<Rightarrow> find_entry (catalog c) i) of
                  None \<Rightarrow> count_error c ''DuplicateTargetMissingError''
                | Some e \<Rightarrow>
                    if fails row then count_error c ''PersistenceError''
                    else c\<lparr>catalog := update_entry (catalog c) (entry_id e) row,
                           stats := (stats c)\<lparr>updated := updated (stats c) + 1\<rparr>\<rparr>)
           | CreateNew \<Rightarrow>
               if fails row then count_error c ''PersistenceError'' else count_created c row))"

definition process_row :: "DuplicateAction \<Rightarrow> (StagedRow \<Rightarrow> bool) \<Rightarrow> nat \<Rightarrow> Commit \<Rightarrow> StagedRow \<Rightarrow> Commit" where
  "process_row action fails n c row =
     (let c1 = apply_row action fails c row;
          c2 = c1\<lparr>processed := processed c1 + 1\<rparr>
      in c2\<lparr>events := events c2 @
             [\<lparr>ev_type = Progress, ev_step = ''processing'',
               ev_progress = (processed c2 * 100) div n,
               ev_message = ''row processed'',
               ev_data = Some (stats c2, [])\<rparr>]\<rparr>)"

definition commit :: "CatalogEntry list \<Rightarrow> DuplicateAction \<Rightarrow> (StagedRow \<Rightarrow> bool) \<Rightarrow> StagedRow list \<Rightarrow> Commit" where
  "commit cat action fails rows =
     (let c = foldl (process_row action fails (length rows))
                \<lparr>catalog = cat,
                 stats = \<lparr>created = 0, updated = 0, skipped = 0, errorsCount = 0\<rparr>,
                 messages = [], processed = 0, events = []\<rparr>
                (sort_key temp_id rows)
      in c\<lparr>events := events c @
            [\<lparr>ev_type = Complete, ev_step = ''complete'', ev_progress = 100,
              ev_message = ''import finished'',
              ev_data = Some (stats c, messages c)\<rparr>]\<rparr>)"

text \<open>The terminal summary of a commit: what its last event carries.\<close>

definition terminal :: "Commit \<Rightarrow> ProgressEvent" where
  "terminal c = last (events c)"

section \<open>Concrete inputs\<close>

definition widget :: CatalogEntry where
  "widget = \<lparr>entry_id = 1, entry_name = ''Widget '', entry_description = ''a widget'',
     entry_price = JNum 5, entry_quantity = JNum 2\<rparr>"

text \<open>The operator types the name of the listed widget again, in lower case.\<close>

definition adding :: Component where
  "adding = initial\<lparr>items := [widget],
     newItem := \<lparr>new_name = ''widget'', new_description = ''again'', new_price = JNum 5,
                 new_quantity = JNum 1\<rparr>\<rparr>"

text \<open>The scenario of the specification: the catalog holds Bolt; the sheet has Bolt (a
  duplicate), Nut (new) and Screw (an error row, its price is not a number).\<close>

definition bolt_entry :: CatalogEntry where
  "bolt_entry = \<lparr>entry_id = 7, entry_name = ''Bolt'', entry_description = ''hex bolt'',
     entry_price = JNum 5, entry_quantity = JNum 1\<rparr>"

definition bolt_row :: PreviewRow where
  "bolt_row = [(''temp_id'', JNum 1), (''name'', JStr ''Bolt''), (''description'', JStr ''hex bolt''),
     (''price'', JNum 6), (''quantity'', JNum 10), (''status'', JStr ''duplicate''),
     (''existing_id'', JNum 7)]"

definition nut_row :: PreviewRow where
  "nut_row = [(''temp_id'', JNum 2), (''name'', JStr ''Nut''), (''description'', JStr ''hex nut''),
     (''price'', JNum 2), (''quantity'', JNum 5), (''status'', JStr ''new''),
     (''existing_id'', JNull)]"

definition screw_row :: PreviewRow where
  "screw_row = [(''temp_id'', JNum 3), (''name'', JStr ''Screw''), (''description'', JStr ''wood screw''),
     (''price'', JStr ''abc''), (''quantity'', JNum 3), (''status'', JStr ''error''),
     (''existing_id'', JNull)]"

definition response :: PreviewResponse where
  "response = \<lparr>success = True, preview_rows = [bolt_row, nut_row, screw_row], total_rows = 3,
     response_columns = [''temp_id'', ''name'', ''description'', ''price'', ''quantity'', ''status'',
       ''existing_id''],
     has_duplicates = True, duplicates_found = 1, new_products = 1\<rparr>"

definition loaded :: Component where
  "loaded = loadPreviewWithDuplicates_next initial response"

text \<open>Nut renamed to a name that matches Bolt, and saved.\<close>

definition renamed :: Component where
  "renamed = saveEdit (mutateRow (startEdit loaded 1) 1 [Assign ''name'' (JStr ''bolt '')])"

text \<open>Edits of Nut that are then cancelled.\<close>

definition edits :: "Mutation list" where
  "edits = [Assign ''name'' (JStr ''Washer''), Assign ''price'' (JStr ''x''), Delete ''status'',
     Assign ''temp_id'' (JNum 9), Assign ''note'' JNull]"

text \<open>A product named in capitals with an accent, and the names typed against it and
  against the widget: the small letters, and Widget between a no-break space and a tab.\<close>

definition cafe :: CatalogEntry where
  "cafe = \<lparr>entry_id = 2, entry_name = [CHR ''C'', CHR ''A'', CHR ''F'', CHR 0xC9],
     entry_description = ''coffee'', entry_price = JNum 3, entry_quantity = JNum 4\<rparr>"

definition cafe_small :: string where
  "cafe_small = [CHR ''c'', CHR ''a'', CHR ''f'', CHR 0xE9]"

definition widget_padded :: string where
  "widget_padded = [CHR 0xA0] @ ''WIDGET'' @ [CHR 0x09]"

text \<open>Two lives of a component: the operator chooses to update the duplicates of a loaded
  preview; and the modal is then closed and the preview loaded once more.\<close>

definition chosen_update :: "Event list" where
  "chosen_update = [NgOnInit, SocketOpened, OpenExcelUploader, PreviewLoaded response,
     SelectDuplicateAction ''update'', OnPreview (DeleteRow 2)]"

definition reopened :: "Event list" where
  "reopened = chosen_update @ [CloseExcelModal, OpenExcelUploader, PreviewLoaded response]"

text \<open>The same preview with the socket open, and a session on it.\<close>

definition connected :: Component where
  "connected = loaded\<lparr>ws := Some \<lparr>readyState = OPEN, sent = []\<rparr>\<rparr>"

definition actions :: "PreviewAction list" where
  "actions = [StartEdit 1, Edit 1 edits, SaveEdit, DeleteRow 0, StartEdit 2,
     Edit 2 [Assign ''price'' (JNum 4)], CancelEdit]"

text \<open>The start message in the words of the specification, with the key
  \<open>duplicateAction\<close>.\<close>

definition spec_start_upload :: "PreviewRow list \<Rightarrow> string \<Rightarrow> json" where
  "spec_start_upload rows d =
     JObj [(''action'', JStr ''start_upload''), (''rows'', JArr (map JObj rows)),
           (''duplicateAction'', JStr d)]"

text \<open>Three files: one of exactly 10 MiB with an upper-case extension, one a byte larger, and
  one that is no workbook.\<close>

definition file_at_limit :: File where
  "file_at_limit = \<lparr>file_name = ''Stock.2024.XLSX'', file_size = 10485760\<rparr>"

definition file_over_limit :: File where
  "file_over_limit = \<lparr>file_name = ''stock.xls'', file_size = 10485761\<rparr>"

definition file_csv :: File where
  "file_csv = \<lparr>file_name = ''stock.csv'', file_size = 100\<rparr>"

text \<open>The staged rows of the scenario as the orchestrator receives them, out of order.\<close>

definition bolt_staged :: StagedRow where
  "bolt_staged = \<lparr>temp_id = 1, name = ''Bolt'', description = ''hex bolt'', price = JNum 6,
     quantity = JNum 10, status = Duplicate, existing_id = Some 7, row_message = []\<rparr>"

definition nut_staged :: StagedRow where
  "nut_staged = \<lparr>temp_id = 2, name = ''Nut'', description = ''hex nut'', price = JNum 2,
     quantity = JNum 5, status = New, existing_id = None, row_message = []\<rparr>"

definition screw_staged :: StagedRow where
  "screw_staged = \<lparr>temp_id = 3, name = ''Screw'', description = ''wood screw'',
     price = JStr ''abc'', quantity = JNum 3, status = Error, existing_id = None,
     row_message = ''row 3: price is not a number''\<rparr>"

definition staged :: "StagedRow list" where
  "staged = [screw_staged, bolt_staged, nut_staged]"

section \<open>Properties\<close>

subsection \<open>Lowercasing and trimming\<close>

lemma isWhiteSpace_toLowerChar: "isWhiteSpace (toLowerChar c) = isWhiteSpace c"
  by (simp add: isWhiteSpace_def toLowerChar_def Let_def)

lemma dropWhile_toLowerCase:
  "dropWhile isWhiteSpace (toLowerCase s) = toLowerCase (dropWhile isWhiteSpace s)"
  by (induction s) (simp_all add: toLowerCase_def isWhiteSpace_toLowerChar)

lemma rev_toLowerCase: "rev (toLowerCase s) = toLowerCase (rev s)"
  by (simp add: toLowerCase_def rev_map)

lemma trim_toLowerCase: "trim (toLowerCase s) = toLowerCase (trim s)"
  by (simp add: trim_def dropWhile_toLowerCase rev_toLowerCase)

lemma nameToCheck_normalize: "nameToCheck n = normalize n"
  by (simp add: nameToCheck_def normalize_def trim_toLowerCase)

lemma trim_padding:
  assumes "\<forall>c \<in> set l \<union> set r. isWhiteSpace c"
  shows "trim (l @ a @ r) = trim a"
proof -
  have l: "dropWhile isWhiteSpace (l @ a @ r) = dropWhile isWhiteSpace (a @ r)"
    using assms by simp
  show ?thesis
  proof (cases "\<forall>c \<in> set a. isWhiteSpace c")
    case True
    then have e: "dropWhile isWhiteSpace (a @ r) = []" "dropWhile isWhiteSpace a = []"
      using assms by auto
    show ?thesis by (simp only: trim_def l e)
  next
    case False
    then have "dropWhile isWhiteSpace (a @ r) = dropWhile isWhiteSpace a @ r"
      by (auto intro: dropWhile_append1)
    moreover have "dropWhile isWhiteSpace (rev r @ ys) = dropWhile isWhiteSpace ys" for ys
      using assms by (intro dropWhile_append2) simp
    ultimately show ?thesis by (simp add: trim_def l)
  qed
qed

lemma normalize_examples:
  "normalize ''Widget '' = ''widget''" "normalize ''widget'' = ''widget''"
  "toLowerCase ''WIDGET'' = ''widget''" "toLowerCase ''widget'' = ''widget''"
  "isWhiteSpace CHR '' ''"
  by code_simp+

lemma toLowerChar_lowered: "toLowerChar c = lowered c"
proof -
  have "\<forall>c. toLowerChar c = lowered c" by code_simp
  then show ?thesis by simp
qed

lemma isWhiteSpace_whiteSpace: "isWhiteSpace c = (c \<in> set whiteSpace)"
proof -
  have "\<forall>c. isWhiteSpace c = (c \<in> set whiteSpace)" by code_simp
  then show ?thesis by simp
qed

lemma trim_trimmed: "trimmed c \<Longrightarrow> trim c = c"
proof (cases "c = []")
  case True
  then show ?thesis by (simp add: trim_def)
next
  case False
  assume "trimmed c"
  with False have h: "\<not> isWhiteSpace (hd c)" "\<not> isWhiteSpace (last c)"
    by (simp_all add: trimmed_def isWhiteSpace_whiteSpace)
  have "dropWhile isWhiteSpace c = c"
    using h(1) by (simp add: dropWhile_eq_self_iff)
  moreover have "dropWhile isWhiteSpace (rev c) = rev c"
    using h(2) False by (simp add: dropWhile_eq_self_iff hd_rev)
  ultimately show ?thesis by (simp add: trim_def)
qed

lemma trimmed_trim: "trimmed (trim n)"
proof (cases "trim n = []")
  case True
  then show ?thesis by (simp add: trimmed_def)
next
  case False
  let ?m = "dropWhile isWhiteSpace n"
  let ?d = "dropWhile isWhiteSpace (rev ?m)"
  have t: "trim n = rev ?d" by (simp add: trim_def)
  have d: "?d \<noteq> []" using False t by simp
  have m: "?m \<noteq> []"
  proof (rule notI)
    assume e: "?m = []"
    have "?d = []" unfolding e by simp
    then show False using d by contradiction
  qed
  have "\<not> isWhiteSpace (hd ?d)" using d by (rule hd_dropWhile)
  then have l: "\<not> isWhiteSpace (last (trim n))" using d by (simp add: t last_rev)
  have "last ?d = last (rev ?m)"
    using d by (metis takeWhile_dropWhile_id last_appendR)
  then have "hd (trim n) = hd ?m" using d m by (simp add: t hd_rev last_rev)
  moreover have "\<not> isWhiteSpace (hd ?m)" using m by (rule hd_dropWhile)
  ultimately show ?thesis using l by (simp add: trimmed_def isWhiteSpace_whiteSpace)
qed

lemma trim_decomposition:
  "\<exists>l r. n = l @ trim n @ r \<and> (\<forall>x \<in> set l \<union> set r. x \<in> set whiteSpace)"
proof -
  let ?l = "takeWhile isWhiteSpace n"
  let ?m = "dropWhile isWhiteSpace n"
  let ?r = "rev (takeWhile isWhiteSpace (rev ?m))"
  have "rev (takeWhile isWhiteSpace (rev ?m) @ dropWhile isWhiteSpace (rev ?m)) = rev (rev ?m)"
    by (simp only: takeWhile_dropWhile_id)
  then have "rev (dropWhile isWhiteSpace (rev ?m)) @ ?r = ?m"
    by (simp only: rev_append rev_rev_ident)
  then have "?m = trim n @ ?r" by (simp only: trim_def)
  then have "n = ?l @ trim n @ ?r" by (metis takeWhile_dropWhile_id)
  moreover have "\<forall>x \<in> set ?l \<union> set ?r. x \<in> set whiteSpace"
    by (auto simp: isWhiteSpace_whiteSpace [symmetric] dest: set_takeWhileD)
  ultimately show ?thesis by blast
qed

lemma key_examples:
  "normalize ''Widget '' = ''widget''" "normalize ''widget'' = ''widget''"
  "normalize ''gadget'' = ''gadget''" "normalize ''wid get'' = ''wid get''"
  "normalize (entry_name cafe) = cafe_small" "normalize cafe_small = cafe_small"
  "normalize widget_padded = ''widget''"
  "map lowered ''WIDGET'' = ''widget''"
  by code_simp+

text \<open>
  C8. The duplicate check of \<open>addItem\<close> finds an existing product exactly when some listed
  product has the same name after trimming surrounding white space and lowercasing, and the
  product it returns is such a one; the key it compares is unchanged by white space added
  around a name and by a change of letter case. So \<open>addItem\<close>, given a name and a
  description, requests the addition exactly when no listed product has the same
  normalized name. The key is the normal form of the specification, and it is this: every
  name is a core with no white space at either end, between two runs of white space, and
  its key is the core with each capital replaced by its small letter; so two names match
  exactly when their cores, so lowercased, are the same string.
\<close>

theorem name_matching_normalized:
  "((existingProduct its n = None) =
      (\<forall>item \<in> set its. normalize (entry_name item) \<noteq> normalize n))
   \<and> (\<forall>item. existingProduct its n = Some item \<longrightarrow>
          item \<in> set its \<and> normalize (entry_name item) = normalize n)
   \<and> ((\<forall>c \<in> set l \<union> set r. isWhiteSpace c) \<longrightarrow> nameToCheck (l @ a @ r) = nameToCheck a)
   \<and> (toLowerCase a = toLowerCase b \<longrightarrow> nameToCheck a = nameToCheck b)
   \<and> (new_name (newItem s) \<noteq> [] \<and> new_description (newItem s) \<noteq> [] \<longrightarrow>
        (requests (addItem s) = requests s @ [AddItem (newItem s)]) =
        (\<forall>item \<in> set (items s).
            normalize (entry_name item) \<noteq> normalize (new_name (newItem s))))
   \<and> nameToCheck n = normalize n
   \<and> ((\<forall>x \<in> set l \<union> set r. x \<in> set whiteSpace) \<and> trimmed c \<longrightarrow>
        nameToCheck (l @ c @ r) = map lowered c)
   \<and> (\<exists>l c r. n = l @ c @ r \<and> (\<forall>x \<in> set l \<union> set r. x \<in> set whiteSpace) \<and> trimmed c)
   \<and> ((\<forall>x \<in> set l \<union> set r \<union> set l' \<union> set r'. x \<in> set whiteSpace)
        \<and> trimmed c \<and> trimmed c' \<longrightarrow>
        (nameToCheck (l @ c @ r) = nameToCheck (l' @ c' @ r')) = (map lowered c = map lowered c'))"
proof -
  have none: "(existingProduct xs m = None) =
          (\<forall>item \<in> set xs. normalize (entry_name item) \<noteq> normalize m)" for xs m
    by (auto simp: existingProduct_def find_None_iff nameToCheck_normalize trim_toLowerCase
          normalize_def)
  have some: "item \<in> set its \<and> normalize (entry_name item) = normalize n"
    if "existingProduct its n = Some item" for item
    using that
    by (auto simp: existingProduct_def find_Some_iff nameToCheck_normalize trim_toLowerCase
          normalize_def)
  have padded: "nameToCheck (l @ a @ r) = nameToCheck a"
    if "\<forall>c \<in> set l \<union> set r. isWhiteSpace c" for l r a
  proof -
    have "\<forall>c \<in> set (toLowerCase l) \<union> set (toLowerCase r). isWhiteSpace c"
      using that by (auto simp: toLowerCase_def isWhiteSpace_toLowerChar)
    then have "trim (toLowerCase l @ toLowerCase a @ toLowerCase r) = trim (toLowerCase a)"
      by (rule trim_padding)
    then show ?thesis
      by (simp add: nameToCheck_def toLowerCase_def)
  qed
  have cased: "nameToCheck a = nameToCheck b" if "toLowerCase a = toLowerCase b"
    using that by (simp add: nameToCheck_def)
  have added: "(requests (addItem s) = requests s @ [AddItem (newItem s)]) =
        (\<forall>item \<in> set (items s).
            normalize (entry_name item) \<noteq> normalize (new_name (newItem s)))"
    if given: "new_name (newItem s) \<noteq> [] \<and> new_description (newItem s) \<noteq> []"
  proof (cases "existingProduct (items s) (new_name (newItem s))")
    case None
    then have "requests (addItem s) = requests s @ [AddItem (newItem s)]"
      using given by (simp add: addItem_def)
    then show ?thesis
      using None none [of "items s" "new_name (newItem s)"] by simp
  next
    case (Some e)
    then have "requests (addItem s) = requests s"
      using given by (simp add: addItem_def)
    then show ?thesis
      using Some none [of "items s" "new_name (newItem s)"] by simp
  qed
  have key: "nameToCheck (l @ c @ r) = map lowered c"
    if "(\<forall>x \<in> set l \<union> set r. x \<in> set whiteSpace) \<and> trimmed c" for l c r
  proof -
    have "\<forall>x \<in> set l \<union> set r. isWhiteSpace x"
      using that by (simp add: isWhiteSpace_whiteSpace)
    then have "nameToCheck (l @ c @ r) = nameToCheck c" by (rule padded)
    also have "\<dots> = toLowerCase (trim c)" by (simp add: nameToCheck_normalize normalize_def)
    also have "\<dots> = map lowered c"
      using that by (simp add: trim_trimmed toLowerCase_def toLowerChar_lowered)
    finally show ?thesis .
  qed
  have split: "\<exists>l c r. n = l @ c @ r \<and> (\<forall>x \<in> set l \<union> set r. x \<in> set whiteSpace) \<and> trimmed c"
    using trim_decomposition [of n] trimmed_trim [of n] by blast
  have match: "(nameToCheck (l @ c @ r) = nameToCheck (l' @ c' @ r')) =
        (map lowered c = map lowered c')"
    if "(\<forall>x \<in> set l \<union> set r \<union> set l' \<union> set r'. x \<in> set whiteSpace)
        \<and> trimmed c \<and> trimmed c'"
  proof -
    have "nameToCheck (l @ c @ r) = map lowered c" using that by (intro key) simp
    moreover have "nameToCheck (l' @ c' @ r') = map lowered c'" using that by (intro key) simp
    ultimately show ?thesis by simp
  qed
  show ?thesis
    using none [of its n] some padded [of l r a] cased added nameToCheck_normalize [of n]
      key [of l r c] split match
    by blast
qed

lemma adding_fields:
  "items adding = [widget]" "new_name (newItem adding) = ''widget''"
  "new_description (newItem adding) = ''again''"
  by (simp_all add: adding_def)

theorem name_matching_normalized_witness:
  "existingProduct [widget, cafe] ''widget'' = Some widget
   \<and> existingProduct [widget, cafe] ''gadget'' = None
   \<and> existingProduct [widget, cafe] cafe_small = Some cafe
   \<and> existingProduct [widget, cafe] widget_padded = Some widget
   \<and> nameToCheck widget_padded = ''widget''
   \<and> nameToCheck ''wid get'' \<noteq> nameToCheck ''widget''
   \<and> nameToCheck ('' '' @ ''WIDGET'' @ ''  '') = nameToCheck ''WIDGET''
   \<and> nameToCheck ''WIDGET'' = nameToCheck ''widget''
   \<and> new_name (newItem adding) \<noteq> [] \<and> new_description (newItem adding) \<noteq> []
   \<and> requests (addItem adding) \<noteq> requests adding @ [AddItem (newItem adding)]"
proof -
  have names: "entry_name widget = ''Widget ''" "widget \<noteq> cafe"
    by (simp_all add: widget_def cafe_def)
  have small: "cafe_small \<noteq> ''widget''" "cafe_small \<noteq> ''gadget''"
    "''widget'' \<noteq> cafe_small" "''gadget'' \<noteq> cafe_small"
    by (simp_all add: cafe_small_def)
  have found: "existingProduct [widget, cafe] m = Some item"
    if eq: "normalize (entry_name item) = normalize m" and mem: "item \<in> set [widget, cafe]"
      and others: "\<forall>other \<in> set [widget, cafe]. other \<noteq> item \<longrightarrow>
         normalize (entry_name other) \<noteq> normalize m" for m item
  proof -
    note T = name_matching_normalized
      [of "[widget, cafe]" m "[]" "[]" "[]" "[]" initial "[]" "[]" "[]" "[]"]
    have "existingProduct [widget, cafe] m \<noteq> None"
      using T [THEN conjunct1] eq mem by blast
    then obtain y where y: "existingProduct [widget, cafe] m = Some y" by blast
    then have "y \<in> set [widget, cafe] \<and> normalize (entry_name y) = normalize m"
      using T [THEN conjunct2, THEN conjunct1] by blast
    then have "y = item" using others by blast
    then show ?thesis using y by simp
  qed
  have w: "existingProduct [widget, cafe] ''widget'' = Some widget"
    "existingProduct [widget, cafe] widget_padded = Some widget"
    "existingProduct [widget, cafe] cafe_small = Some cafe"
    by (rule found; simp add: key_examples names small)+
  have g: "existingProduct [widget, cafe] ''gadget'' = None"
    using name_matching_normalized
      [of "[widget, cafe]" "''gadget''" "[]" "[]" "[]" "[]" initial "[]" "[]" "[]" "[]",
        THEN conjunct1]
    by (simp add: key_examples names small)
  have p: "nameToCheck widget_padded = ''widget''"
  proof -
    have "(\<forall>x \<in> set [CHR 0xA0] \<union> set [CHR 0x09]. x \<in> set whiteSpace) \<and> trimmed ''WIDGET'' \<longrightarrow>
          nameToCheck ([CHR 0xA0] @ ''WIDGET'' @ [CHR 0x09]) = map lowered ''WIDGET''"
      using name_matching_normalized
        [of "[]" "[]" "[CHR 0xA0]" "[CHR 0x09]" "[]" "[]" initial "''WIDGET''" "[]" "[]" "[]"]
      by blast
    moreover have "(\<forall>x \<in> set [CHR 0xA0] \<union> set [CHR 0x09]. x \<in> set whiteSpace) \<and> trimmed ''WIDGET''"
      by (simp add: whiteSpace_def trimmed_def)
    ultimately have "nameToCheck ([CHR 0xA0] @ ''WIDGET'' @ [CHR 0x09]) = map lowered ''WIDGET''"
      by (rule mp)
    then show ?thesis by (simp only: widget_padded_def key_examples)
  qed
  have k: "nameToCheck m = normalize m" for m
    using name_matching_normalized
      [of "[]" m "[]" "[]" "[]" "[]" initial "[]" "[]" "[]" "[]"]
    by blast
  have i: "nameToCheck ''wid get'' \<noteq> nameToCheck ''widget''"
    by (simp add: k key_examples)
  have o: "nameToCheck ('' '' @ ''WIDGET'' @ ''  '') = nameToCheck ''WIDGET''"
    "nameToCheck ''WIDGET'' = nameToCheck ''widget''"
    "requests (addItem adding) \<noteq> requests adding @ [AddItem (newItem adding)]"
    using name_matching_normalized
      [of "[widget]" "''widget''" "'' ''" "''  ''" "''WIDGET''" "''widget''" adding
        "[]" "[]" "[]" "[]"]
    by (auto simp: normalize_examples adding_fields widget_def)
  show ?thesis
    using w g p i o by (simp add: adding_fields)
qed

subsection \<open>The loaded scenario\<close>

lemma loaded_fields:
  "heap loaded = [bolt_row, nut_row, screw_row]"
  "previewData loaded = [0, 1, 2]"
  "originalPreviewData loaded = [bolt_row, nut_row, screw_row]"
  "totalRows loaded = 3"
  "hasDuplicates loaded = True"
  "duplicatesCount loaded = 1"
  "newProductsCount loaded = 1"
  by (simp_all add: loaded_def loadPreviewWithDuplicates_next_def initial_def response_def
        deepCopy_def upt_rec)

lemma row_keys:
  "map fst nut_row =
     [''temp_id'', ''name'', ''description'', ''price'', ''quantity'', ''status'', ''existing_id'']"
  by (simp add: nut_row_def)

subsection \<open>Objects\<close>

lemma map_of_Object_assign:
  "distinct (map fst source) \<Longrightarrow>
   map_of (Object_assign target source) k =
     (case map_of source k of None \<Rightarrow> map_of target k | Some v \<Rightarrow> Some v)"
proof (induction source arbitrary: target)
  case Nil
  then show ?case by (simp add: Object_assign_def)
next
  case (Cons p source)
  obtain k' v' where p: "p = (k', v')" by (cases p)
  have notin: "map_of source k' = None"
    using Cons.prems p by (simp add: map_of_eq_None_iff)
  have "map_of (Object_assign target (p # source)) k =
        map_of (Object_assign (AList.update k' v' target) source) k"
    by (simp add: Object_assign_def p)
  also have "\<dots> = (case map_of source k of None \<Rightarrow> map_of (AList.update k' v' target) k
                     | Some v \<Rightarrow> Some v)"
    using Cons.IH Cons.prems by simp
  finally show ?case
    using notin by (auto simp: p update_conv' split: option.splits)
qed

lemma map_of_mutate:
  "k \<noteq> mutatedKey m \<Longrightarrow> map_of (mutate m row) k = map_of row k"
  by (cases m) (simp_all add: update_conv' delete_conv')

lemma map_of_fold_mutate:
  "k \<notin> mutatedKey ` set ms \<Longrightarrow> map_of (fold mutate ms row) k = map_of row k"
  by (induction ms arbitrary: row) (simp_all add: map_of_mutate)

subsection \<open>Editing\<close>

lemma heap_edit_cancel:
  "row < length (heap s) \<Longrightarrow>
   heap (cancelEdit (mutateRow (startEdit s row) row ms)) ! row =
     Object_assign (fold mutate ms (heap s ! row)) (heap s ! row)"
  by (simp add: cancelEdit_def mutateRow_def startEdit_def spread_def)

text \<open>
  C9. For a row object with its property names distinct: after \<open>startEdit\<close> on the row,
  any assignments to and removals of its top-level fields, and \<open>cancelEdit\<close>, every field
  the row had before the edit reads its value from before the edit (so do the names that
  the row did not have and the edit did not touch), and no row is under edit.
\<close>

theorem cancelEdit_restores:
  assumes "row < length (heap s)" and "distinct (map fst (heap s ! row))"
  shows "(\<forall>k. k \<in> fst ` set (heap s ! row) \<or> k \<notin> mutatedKey ` set ms \<longrightarrow>
            map_of (heap (cancelEdit (mutateRow (startEdit s row) row ms)) ! row) k =
            map_of (heap s ! row) k)
         \<and> editingRow (cancelEdit (mutateRow (startEdit s row) row ms)) = None
         \<and> editingRowCopy (cancelEdit (mutateRow (startEdit s row) row ms)) = None"
proof (intro conjI allI impI)
  fix k
  assume k: "k \<in> fst ` set (heap s ! row) \<or> k \<notin> mutatedKey ` set ms"
  show "map_of (heap (cancelEdit (mutateRow (startEdit s row) row ms)) ! row) k =
        map_of (heap s ! row) k"
  proof (cases "map_of (heap s ! row) k")
    case None
    then have "k \<notin> fst ` set (heap s ! row)" by (simp add: map_of_eq_None_iff)
    with k have "k \<notin> mutatedKey ` set ms" by blast
    then show ?thesis
      using assms None by (simp add: heap_edit_cancel map_of_Object_assign map_of_fold_mutate)
  next
    case (Some v)
    then show ?thesis
      using assms by (simp add: heap_edit_cancel map_of_Object_assign)
  qed
qed (simp_all add: cancelEdit_def)

theorem cancelEdit_restores_witness:
  "1 < length (heap loaded) \<and> distinct (map fst (heap loaded ! 1))
   \<and> map (map_of (heap (cancelEdit (mutateRow (startEdit loaded 1) 1 edits)) ! 1))
       [''name'', ''description'', ''price'', ''quantity'', ''status'', ''existing_id'', ''temp_id'']
     = [Some (JStr ''Nut''), Some (JStr ''hex nut''), Some (JNum 2), Some (JNum 5),
        Some (JStr ''new''), Some JNull, Some (JNum 2)]
   \<and> editingRow (cancelEdit (mutateRow (startEdit loaded 1) 1 edits)) = None"
proof -
  have h: "1 < length (heap loaded)" "distinct (map fst (heap loaded ! 1))"
    by (simp_all add: loaded_fields row_keys)
  have k: "k \<in> fst ` set (heap loaded ! 1)"
    if "k \<in> set (map fst nut_row)" for k
    using that by (simp add: loaded_fields)
  show ?thesis
    using h cancelEdit_restores [OF h, of edits] k
    by (simp add: row_keys) (simp add: loaded_fields nut_row_def)
qed

text \<open>
  C2, as the code has it. A saved edit that changes the name of a row, or any of its fields
  other than \<open>status\<close>, leaves the row's status as it was before the edit: the component
  does not recompute it, whatever the catalog holds.
\<close>

theorem saved_edit_keeps_status:
  assumes "row < length (heap s)" and "''status'' \<notin> mutatedKey ` set ms"
  shows "map_of (heap (saveEdit (mutateRow (startEdit s row) row ms)) ! row) ''status'' =
         map_of (heap s ! row) ''status''"
  using assms by (simp add: saveEdit_def mutateRow_def startEdit_def map_of_fold_mutate)

theorem saved_edit_keeps_status_witness:
  "1 < length (heap loaded)
   \<and> ''status'' \<notin> mutatedKey ` set [Assign ''name'' (JStr ''bolt '')]
   \<and> map_of (heap renamed ! 1) ''status'' = Some (JStr ''new'')"
proof -
  have h: "1 < length (heap loaded)"
    "''status'' \<notin> mutatedKey ` set [Assign ''name'' (JStr ''bolt '')]"
    by (simp_all add: loaded_fields)
  show ?thesis
    using h saved_edit_keeps_status [OF h]
    by (simp add: renamed_def loaded_fields nut_row_def)
qed

text \<open>
  C2, as the claim has it, fails: Nut is renamed to a name that matches the catalog's Bolt
  and saved. Before the edit its status was its classification; after it the status is
  still \<open>new\<close>, while the classification of the row as it now stands is \<open>duplicate\<close>.
\<close>

theorem status_recomputed_counterexample:
  "map_of (heap loaded ! 1) ''status'' = Some (JStr (classify [bolt_entry] (heap loaded ! 1)))
   \<and> classify [bolt_entry] (heap renamed ! 1) = ''duplicate''
   \<and> map_of (heap renamed ! 1) ''status'' \<noteq> Some (JStr (classify [bolt_entry] (heap renamed ! 1)))"
  by code_simp

text \<open>
  C3. \<open>saveEdit\<close> leaves the store of row objects as it is, so every field of every row,
  edited values, \<open>status\<close>, \<open>existing_id\<close> and \<open>temp_id\<close> included, stays what it was at
  the moment of saving; it leaves the list of staged rows, the snapshot, \<open>totalRows\<close>,
  \<open>duplicatesCount\<close>, \<open>newProductsCount\<close> and \<open>hasDuplicates\<close> unchanged, and ends the
  edit. After \<open>startEdit\<close>, edits and \<open>saveEdit\<close> the row holds the edited values in place.
\<close>

theorem saveEdit_frame:
  "heap (saveEdit s) = heap s
   \<and> previewData (saveEdit s) = previewData s
   \<and> originalPreviewData (saveEdit s) = originalPreviewData s
   \<and> totalRows (saveEdit s) = totalRows s
   \<and> duplicatesCount (saveEdit s) = duplicatesCount s
   \<and> newProductsCount (saveEdit s) = newProductsCount s
   \<and> hasDuplicates (saveEdit s) = hasDuplicates s
   \<and> editingRow (saveEdit s) = None
   \<and> editingRowCopy (saveEdit s) = None
   \<and> heap (saveEdit (mutateRow (startEdit s row) row ms)) =
       (heap s)[row := fold mutate ms (heap s ! row)]"
  by (simp add: saveEdit_def mutateRow_def startEdit_def)

subsection \<open>Deleting\<close>

lemma findIndex_ge: "- 1 \<le> findIndex p xs"
  by (induction xs) (simp_all add: Let_def)

lemma findIndex_none: "(findIndex p xs = - 1) = (\<forall>x \<in> set xs. \<not> p x)"
proof (induction xs)
  case Nil
  then show ?case by simp
next
  case (Cons x xs)
  have "- 1 \<le> findIndex p xs" by (rule findIndex_ge)
  then show ?case using Cons by (auto simp: Let_def)
qed

lemma splice1_findIndex:
  "x \<in> set xs \<Longrightarrow> inj_on f (set xs) \<Longrightarrow>
   0 \<le> findIndex (\<lambda>r. f r = f x) xs \<and>
   splice1 xs (findIndex (\<lambda>r. f r = f x) xs) = remove1 x xs"
proof (induction xs)
  case Nil
  then show ?case by simp
next
  case (Cons y ys)
  show ?case
  proof (cases "f y = f x")
    case True
    then have "y = x" using Cons.prems by (auto dest: inj_onD)
    then show ?thesis by (simp add: splice1_def)
  next
    case False
    then have "x \<in> set ys" "inj_on f (set ys)" "x \<noteq> y" using Cons.prems by auto
    then have ih: "0 \<le> findIndex (\<lambda>r. f r = f x) ys"
      "splice1 ys (findIndex (\<lambda>r. f r = f x) ys) = remove1 x ys"
      using Cons.IH by auto
    then show ?thesis using False \<open>x \<noteq> y\<close>
      by (auto simp: splice1_def Let_def nat_add_distrib)
  qed
qed

lemma loaded_temp_ids:
  "map (\<lambda>r. map_of (heap loaded ! r) ''temp_id'') (previewData loaded) =
     [Some (JNum 1), Some (JNum 2), Some (JNum 3)]"
  by (simp add: loaded_fields bolt_row_def nut_row_def screw_row_def)

text \<open>
  C4. For a row of the preview whose rows have pairwise different \<open>temp_id\<close>s,
  \<open>deleteRow\<close> removes that row and no other from \<open>previewData\<close>, leaves the row objects
  alone, lowers \<open>totalRows\<close> by one, lowers \<open>duplicatesCount\<close> by one when the row's status
  is \<open>duplicate\<close> and \<open>newProductsCount\<close> by one when it is \<open>new\<close>, and sets
  \<open>hasDuplicates\<close> to false exactly when the row was a duplicate and the count has come
  down to zero; otherwise \<open>hasDuplicates\<close> keeps its value.
\<close>

theorem deleteRow_present:
  assumes "row \<in> set (previewData s)"
    and "distinct (map (\<lambda>r. map_of (heap s ! r) ''temp_id'') (previewData s))"
  shows "previewData (deleteRow s row) = remove1 row (previewData s)
         \<and> row \<notin> set (previewData (deleteRow s row))
         \<and> length (previewData (deleteRow s row)) + 1 = length (previewData s)
         \<and> heap (deleteRow s row) = heap s
         \<and> totalRows (deleteRow s row) = totalRows s - 1
         \<and> duplicatesCount (deleteRow s row) =
             (if map_of (heap s ! row) ''status'' = Some (JStr ''duplicate'')
              then duplicatesCount s - 1 else duplicatesCount s)
         \<and> newProductsCount (deleteRow s row) =
             (if map_of (heap s ! row) ''status'' = Some (JStr ''new'')
              then newProductsCount s - 1 else newProductsCount s)
         \<and> hasDuplicates (deleteRow s row) =
             (if map_of (heap s ! row) ''status'' = Some (JStr ''duplicate'')
                 \<and> duplicatesCount s - 1 = 0
              then False else hasDuplicates s)"
proof -
  let ?f = "\<lambda>r. map_of (heap s ! r) ''temp_id''"
  let ?i = "findIndex (\<lambda>r. ?f r = ?f row) (previewData s)"
  have inj: "inj_on ?f (set (previewData s))" and d: "distinct (previewData s)"
    using assms(2) by (simp_all add: distinct_map)
  have i: "0 \<le> ?i" "splice1 (previewData s) ?i = remove1 row (previewData s)"
    using splice1_findIndex [of row "previewData s" ?f, OF assms(1) inj] by simp_all
  have pd: "previewData (deleteRow s row) = remove1 row (previewData s)"
    using i by (simp add: deleteRow_def Let_def)
  have len: "length (remove1 row (previewData s)) + 1 = length (previewData s)"
    using assms(1) by (simp add: length_remove1) (cases "previewData s", auto)
  show ?thesis
    unfolding pd using i(1) d len
    by (simp add: deleteRow_def Let_def)
qed

theorem deleteRow_present_witness:
  "0 \<in> set (previewData loaded)
   \<and> distinct (map (\<lambda>r. map_of (heap loaded ! r) ''temp_id'') (previewData loaded))
   \<and> previewData (deleteRow loaded 0) = [1, 2]
   \<and> totalRows (deleteRow loaded 0) = 2
   \<and> duplicatesCount (deleteRow loaded 0) = 0
   \<and> newProductsCount (deleteRow loaded 0) = 1
   \<and> hasDuplicates (deleteRow loaded 0) = False"
proof -
  have h: "0 \<in> set (previewData loaded)"
    "distinct (map (\<lambda>r. map_of (heap loaded ! r) ''temp_id'') (previewData loaded))"
    unfolding loaded_temp_ids by (simp_all add: loaded_fields)
  show ?thesis
    using h deleteRow_present [OF h]
    by (simp add: loaded_fields bolt_row_def)
qed

text \<open>
  C10. \<open>deleteRow\<close> on a row whose \<open>temp_id\<close> is that of no row of the preview returns
  the state as it was: the staged rows, \<open>totalRows\<close>, the two counters and \<open>hasDuplicates\<close>
  included.
\<close>

theorem deleteRow_absent:
  assumes "\<forall>r \<in> set (previewData s).
             map_of (heap s ! r) ''temp_id'' \<noteq> map_of (heap s ! row) ''temp_id''"
  shows "deleteRow s row = s"
proof -
  have "findIndex (\<lambda>r. map_of (heap s ! r) ''temp_id'' = map_of (heap s ! row) ''temp_id'')
          (previewData s) = - 1"
    using assms by (simp add: findIndex_none)
  then show ?thesis by (simp add: deleteRow_def)
qed

lemma once_deleted:
  "previewData (deleteRow loaded 0) = [1, 2]" "heap (deleteRow loaded 0) = heap loaded"
  by (simp_all add: deleteRow_def Let_def splice1_def loaded_fields bolt_row_def nut_row_def
        screw_row_def)

theorem deleteRow_absent_witness:
  "map (\<lambda>r. map_of (heap (deleteRow loaded 0) ! r) ''temp_id'') (previewData (deleteRow loaded 0)) =
     [Some (JNum 2), Some (JNum 3)]
   \<and> map_of (heap (deleteRow loaded 0) ! 0) ''temp_id'' = Some (JNum 1)
   \<and> deleteRow (deleteRow loaded 0) 0 = deleteRow loaded 0"
proof -
  have h: "\<forall>r \<in> set (previewData (deleteRow loaded 0)).
      map_of (heap (deleteRow loaded 0) ! r) ''temp_id'' \<noteq>
      map_of (heap (deleteRow loaded 0) ! 0) ''temp_id''"
    by (simp add: once_deleted loaded_fields bolt_row_def nut_row_def screw_row_def)
  show ?thesis
    using deleteRow_absent [OF h]
    by (simp add: once_deleted loaded_fields bolt_row_def nut_row_def screw_row_def)
qed

subsection \<open>The snapshot\<close>

lemma perform_snapshot: "originalPreviewData (perform s a) = originalPreviewData s"
proof (cases a)
  case (DeleteRow row)
  then show ?thesis by (simp add: deleteRow_def Let_def)
next
  case CancelEdit
  then show ?thesis by (simp add: cancelEdit_def split: option.splits)
qed (simp_all add: startEdit_def mutateRow_def saveEdit_def)

lemma session_snapshot: "originalPreviewData (session s as) = originalPreviewData s"
  unfolding session_def by (induction as arbitrary: s) (simp_all add: perform_snapshot)

text \<open>
  C5, as the code has it. The snapshot taken when the preview arrives, a deep copy of its
  rows, is still that copy after any session of edits and deletions. The component has no
  operation that puts it back: its reset, \<open>resetUploadState\<close>, empties the staged rows
  and the snapshot and sets \<open>totalRows\<close> and both counters to zero and \<open>hasDuplicates\<close> to
  false.
\<close>

theorem snapshot_kept_until_reset:
  "success resp \<longrightarrow>
     originalPreviewData (session (loadPreviewWithDuplicates_next s resp) as) = preview_rows resp
     \<and> previewData (resetUploadState (session (loadPreviewWithDuplicates_next s resp) as)) = []
     \<and> originalPreviewData (resetUploadState (session (loadPreviewWithDuplicates_next s resp) as)) = []
     \<and> totalRows (resetUploadState (session (loadPreviewWithDuplicates_next s resp) as)) = 0
     \<and> duplicatesCount (resetUploadState (session (loadPreviewWithDuplicates_next s resp) as)) = 0
     \<and> newProductsCount (resetUploadState (session (loadPreviewWithDuplicates_next s resp) as)) = 0
     \<and> hasDuplicates (resetUploadState (session (loadPreviewWithDuplicates_next s resp) as)) = False"
  by (simp add: session_snapshot resetUploadState_def loadPreviewWithDuplicates_next_def
        deepCopy_def)

theorem snapshot_kept_until_reset_witness:
  "success response
   \<and> originalPreviewData (session loaded actions) = [bolt_row, nut_row, screw_row]
   \<and> previewData (resetUploadState (session loaded actions)) = []
   \<and> originalPreviewData (resetUploadState (session loaded actions)) = []"
proof -
  have h: "success response" by (simp add: response_def)
  show ?thesis
    using h snapshot_kept_until_reset [of response initial actions]
    by (simp add: loaded_def [symmetric]) (simp add: response_def)
qed

text \<open>
  C5, as the claim has it, fails on the only reset there is: after the session the staged
  rows differ from the snapshot, and after \<open>resetUploadState\<close> neither the rows nor the
  row count are those of the snapshot, which is itself gone.
\<close>

theorem reset_restores_counterexample:
  "previewRows (session loaded actions) \<noteq> preview_rows response
   \<and> previewRows (resetUploadState (session loaded actions)) \<noteq> preview_rows response
   \<and> totalRows (resetUploadState (session loaded actions)) \<noteq> total_rows response
   \<and> originalPreviewData (resetUploadState (session loaded actions)) \<noteq> preview_rows response"
  by code_simp

subsection \<open>Confirming\<close>

lemma perform_choice: "selectedDuplicateAction (perform s a) = selectedDuplicateAction s"
proof (cases a)
  case (DeleteRow row)
  then show ?thesis by (simp add: deleteRow_def Let_def)
next
  case CancelEdit
  then show ?thesis by (simp add: cancelEdit_def split: option.splits)
qed (simp_all add: startEdit_def mutateRow_def saveEdit_def)

lemma onFileSelected_choice:
  "selectedDuplicateAction (onFileSelected s fo) = selectedDuplicateAction s"
  by (simp add: onFileSelected_def showError_def analyzeFile_def split: option.splits)

lemma confirmUpload_choice:
  "selectedDuplicateAction (confirmUpload s) = selectedDuplicateAction s"
  by (simp add: confirmUpload_def confirmUpload_retry_def connectWebSocket_def showError_def
        split: option.splits)

lemma addItem_choice: "selectedDuplicateAction (addItem s) = selectedDuplicateAction s"
  by (simp add: addItem_def split: option.splits)

lemma step_keeps:
  "keepsChoice e \<Longrightarrow> selectedDuplicateAction (step s e) = selectedDuplicateAction s"
  by (cases e)
     (simp_all add: perform_choice onFileSelected_choice confirmUpload_choice addItem_choice
        ngOnInit_def loadItems_def connectWebSocket_def socketOpened_def
        loadPreviewWithDuplicates_next_def)

lemma run_keeps:
  "\<forall>e \<in> set evs. keepsChoice e \<Longrightarrow>
   selectedDuplicateAction (run s evs) = selectedDuplicateAction s"
  unfolding run_def by (induction evs arbitrary: s) (simp_all add: step_keeps)

lemma step_offered:
  assumes "selectedDuplicateAction s \<in> set duplicateActions"
    and "\<forall>d. e = SelectDuplicateAction d \<longrightarrow> d \<in> set duplicateActions"
  shows "selectedDuplicateAction (step s e) \<in> set duplicateActions"
proof (cases "keepsChoice e")
  case True
  then show ?thesis using assms(1) by (simp add: step_keeps)
next
  case False
  then show ?thesis
    using assms
    by (cases e)
       (simp_all add: selectDuplicateAction_def openExcelUploader_def closeExcelModal_def
          cancelPreview_def resetUploadState_def duplicateActions_def Let_def)
qed

lemma run_offered:
  "selectedDuplicateAction s \<in> set duplicateActions \<Longrightarrow>
   \<forall>d. SelectDuplicateAction d \<in> set evs \<longrightarrow> d \<in> set duplicateActions \<Longrightarrow>
   selectedDuplicateAction (run s evs) \<in> set duplicateActions"
  unfolding run_def
proof (induction evs arbitrary: s)
  case Nil
  then show ?case by simp
next
  case (Cons e evs)
  have "selectedDuplicateAction (step s e) \<in> set duplicateActions"
    using Cons.prems by (intro step_offered) auto
  then show ?case using Cons.IH Cons.prems(2) by simp
qed

text \<open>
  C6, as the code has it. Whatever has happened to the component since its creation, as
  long as the operator has only ever selected one of \<open>skip\<close>, \<open>update\<close> and
  \<open>create_new\<close>: with the socket open, \<open>confirmUpload\<close> hands exactly one more message
  to \<open>send\<close>, the object with \<open>action\<close> \<open>start_upload\<close>, \<open>rows\<close> the staged rows in
  order, and \<open>duplicate_action\<close> the selected duplicate action, which is one of those
  three values. The selected action is the operator's choice: it is the value last
  selected as long as no new choice is made and the upload state is not reset, and it is
  \<open>skip\<close> from the creation of the component and from each reset until a choice is made.
\<close>

theorem confirmUpload_sends:
  "((\<forall>d. SelectDuplicateAction d \<in> set evs \<longrightarrow> d \<in> set duplicateActions)
      \<and> ws (run initial evs) = Some w \<and> readyState w = OPEN \<longrightarrow>
      ws (confirmUpload (run initial evs)) =
        Some (w\<lparr>sent := sent w @
          [JObj [(''action'', JStr ''start_upload''),
                 (''rows'', JArr (map JObj (previewRows (run initial evs)))),
                 (''duplicate_action'', JStr (selectedDuplicateAction (run initial evs)))]]\<rparr>)
      \<and> selectedDuplicateAction (run initial evs) \<in> set duplicateActions)
   \<and> ((\<forall>e \<in> set later. keepsChoice e) \<longrightarrow>
        selectedDuplicateAction (run s (SelectDuplicateAction d # later)) = d)
   \<and> ((\<forall>e \<in> set later. keepsChoice e) \<longrightarrow>
        selectedDuplicateAction (run (resetUploadState s) later) = ''skip'')
   \<and> ((\<forall>e \<in> set evs. keepsChoice e) \<longrightarrow> selectedDuplicateAction (run initial evs) = ''skip'')
   \<and> duplicateActions = [''skip'', ''update'', ''create_new'']"
proof (intro conjI impI)
  assume h: "(\<forall>d. SelectDuplicateAction d \<in> set evs \<longrightarrow> d \<in> set duplicateActions)
      \<and> ws (run initial evs) = Some w \<and> readyState w = OPEN"
  then show "ws (confirmUpload (run initial evs)) =
        Some (w\<lparr>sent := sent w @
          [JObj [(''action'', JStr ''start_upload''),
                 (''rows'', JArr (map JObj (previewRows (run initial evs)))),
                 (''duplicate_action'', JStr (selectedDuplicateAction (run initial evs)))]]\<rparr>)"
    by (simp add: confirmUpload_def startUploadMessage_def previewRows_def comp_def)
  have "selectedDuplicateAction initial \<in> set duplicateActions"
    by (simp add: initial_def duplicateActions_def)
  then show "selectedDuplicateAction (run initial evs) \<in> set duplicateActions"
    using h by (intro run_offered) simp_all
next
  assume "\<forall>e \<in> set later. keepsChoice e"
  then show "selectedDuplicateAction (run s (SelectDuplicateAction d # later)) = d"
    using run_keeps [of later "selectDuplicateAction s d"]
    by (simp add: run_def selectDuplicateAction_def)
next
  assume "\<forall>e \<in> set later. keepsChoice e"
  then show "selectedDuplicateAction (run (resetUploadState s) later) = ''skip''"
    by (simp add: run_keeps resetUploadState_def)
next
  assume "\<forall>e \<in> set evs. keepsChoice e"
  then show "selectedDuplicateAction (run initial evs) = ''skip''"
    by (simp add: run_keeps initial_def)
next
  show "duplicateActions = [''skip'', ''update'', ''create_new'']" by (simp add: duplicateActions_def)
qed

lemma lives:
  "ws (run initial chosen_update) = Some \<lparr>readyState = OPEN, sent = []\<rparr>"
  "ws (run initial reopened) = Some \<lparr>readyState = OPEN, sent = []\<rparr>"
  "previewRows (run initial chosen_update) = [bolt_row, nut_row]"
  "previewRows (run initial reopened) = [bolt_row, nut_row, screw_row]"
  "selectedDuplicateAction (run initial chosen_update) = ''update''"
  "selectedDuplicateAction (run initial reopened) = ''skip''"
  by code_simp+

lemma selections:
  "\<forall>d. SelectDuplicateAction d \<in> set chosen_update \<longrightarrow> d \<in> set duplicateActions"
  "\<forall>d. SelectDuplicateAction d \<in> set reopened \<longrightarrow> d \<in> set duplicateActions"
  by (auto simp: chosen_update_def reopened_def duplicateActions_def)

theorem confirmUpload_sends_witness:
  "ws (run initial chosen_update) = Some \<lparr>readyState = OPEN, sent = []\<rparr>
   \<and> readyState \<lparr>readyState = OPEN, sent = []\<rparr> = OPEN
   \<and> map_option sent (ws (confirmUpload (run initial chosen_update))) =
       Some [JObj [(''action'', JStr ''start_upload''),
                   (''rows'', JArr [JObj bolt_row, JObj nut_row]),
                   (''duplicate_action'', JStr ''update'')]]
   \<and> map_option sent (ws (confirmUpload (run initial reopened))) =
       Some [JObj [(''action'', JStr ''start_upload''),
                   (''rows'', JArr [JObj bolt_row, JObj nut_row, JObj screw_row]),
                   (''duplicate_action'', JStr ''skip'')]]"
  using confirmUpload_sends [of chosen_update "\<lparr>readyState = OPEN, sent = []\<rparr>"]
    confirmUpload_sends [of reopened "\<lparr>readyState = OPEN, sent = []\<rparr>"]
    selections
  by (simp add: lives)

text \<open>
  C6, as the claim has it, fails: the one message sent is not the object with the key
  \<open>duplicateAction\<close>, for any of the three values.
\<close>

theorem duplicateAction_key_counterexample:
  "map_option sent (ws (confirmUpload connected)) = Some [startUploadMessage connected]
   \<and> startUploadMessage connected \<noteq> spec_start_upload (previewRows connected) ''skip''
   \<and> startUploadMessage connected \<noteq> spec_start_upload (previewRows connected) ''update''
   \<and> startUploadMessage connected \<noteq> spec_start_upload (previewRows connected) ''create_new''"
  by (simp add: confirmUpload_def connected_def startUploadMessage_def spec_start_upload_def)

subsection \<open>Selecting a file\<close>

lemma lastIndexOf_absent: "c \<notin> set xs \<Longrightarrow> lastIndexOf xs c = - 1"
  by (induction xs) (auto simp: Let_def)

lemma lastIndexOf_last: "c \<notin> set ext \<Longrightarrow> lastIndexOf (base @ c # ext) c = int (length base)"
  by (induction base) (simp_all add: Let_def lastIndexOf_absent)

lemma toLowerChar_dot: "toLowerChar CHR ''.'' = CHR ''.''"
  by code_simp

lemma toLowerCase_examples:
  "toLowerCase ''.XLSX'' = ''.xlsx''" "toLowerCase ''.xls'' = ''.xls''"
  "toLowerCase ''.csv'' = ''.csv''" "toLowerCase ''XLSX'' = ''xlsx''"
  by code_simp+

lemma file_examples:
  "fileExtension file_at_limit = ''.xlsx''"
  "fileExtension file_over_limit = ''.xls''"
  "fileExtension file_csv = ''.csv''"
  by (simp_all add: fileExtension_def file_at_limit_def file_over_limit_def file_csv_def
        substring_def Let_def toLowerCase_examples)

text \<open>
  C7. The limit is 10 MiB. A file whose extension, lowercased, is neither \<open>.xls\<close> nor
  \<open>.xlsx\<close>, or whose size is above the limit, gets an error message and nothing else:
  no request is made, and the selected file, its name and size, the sheets, the selected
  sheet, the preview and its snapshot stay as they were (unset, in a fresh or reset
  component). A file with one of the two extensions and a size up to and including the
  limit is taken as the selected file and its analysis is requested. The extension is what
  follows the last dot, the dot included.
\<close>

theorem onFileSelected_validation:
  "maxSize = 10485760
   \<and> (fileExtension file \<notin> set validExtensions \<or> maxSize < file_size file \<longrightarrow>
        generalError (onFileSelected s (Some file)) =
          (if fileExtension file \<notin> set validExtensions then InvalidExcelFile
           else FileTooLarge (file_size file))
        \<and> requests (onFileSelected s (Some file)) = requests s
        \<and> selectedFile (onFileSelected s (Some file)) = selectedFile s
        \<and> fileName (onFileSelected s (Some file)) = fileName s
        \<and> fileSize (onFileSelected s (Some file)) = fileSize s
        \<and> sheets (onFileSelected s (Some file)) = sheets s
        \<and> selectedSheet (onFileSelected s (Some file)) = selectedSheet s
        \<and> showPreview (onFileSelected s (Some file)) = showPreview s
        \<and> previewData (onFileSelected s (Some file)) = previewData s
        \<and> originalPreviewData (onFileSelected s (Some file)) = originalPreviewData s
        \<and> heap (onFileSelected s (Some file)) = heap s)
   \<and> (fileExtension file \<in> set validExtensions \<and> file_size file \<le> maxSize \<longrightarrow>
        selectedFile (onFileSelected s (Some file)) = Some file
        \<and> fileName (onFileSelected s (Some file)) = file_name file
        \<and> fileSize (onFileSelected s (Some file)) = file_size file
        \<and> generalError (onFileSelected s (Some file)) = NoMessage
        \<and> requests (onFileSelected s (Some file)) = requests s @ [AnalyzeExcel file])
   \<and> (CHR ''.'' \<notin> set ext \<longrightarrow>
        fileExtension \<lparr>file_name = base @ ''.'' @ ext, file_size = n\<rparr> = ''.'' @ toLowerCase ext)"
proof -
  let ?s' = "onFileSelected s (Some file)"
  have rejected: "?s' =
      s\<lparr>generalError := (if fileExtension file \<notin> set validExtensions then InvalidExcelFile
                           else FileTooLarge (file_size file)),
        scheduled := scheduled s @ [(5000, ClearGeneralError)], fileInput := []\<rparr>"
    if "fileExtension file \<notin> set validExtensions \<or> maxSize < file_size file"
    using that by (auto simp: onFileSelected_def showError_def)
  have accepted: "?s' =
      s\<lparr>selectedFile := Some file, fileName := file_name file, fileSize := file_size file,
        errors := [], generalError := NoMessage, requests := requests s @ [AnalyzeExcel file]\<rparr>"
    if "fileExtension file \<in> set validExtensions \<and> file_size file \<le> maxSize"
    using that by (simp add: onFileSelected_def analyzeFile_def)
  have limit: "maxSize = 10485760" by (simp add: maxSize_def)
  have extension:
    "fileExtension \<lparr>file_name = base @ ''.'' @ ext, file_size = n\<rparr> = ''.'' @ toLowerCase ext"
    if "CHR ''.'' \<notin> set ext"
    using that
    by (simp add: fileExtension_def substring_def lastIndexOf_last toLowerCase_def toLowerChar_dot)
  show ?thesis
  proof (intro conjI impI)
    assume r: "fileExtension file \<notin> set validExtensions \<or> maxSize < file_size file"
    show "generalError ?s' =
            (if fileExtension file \<notin> set validExtensions then InvalidExcelFile
             else FileTooLarge (file_size file))"
      "requests ?s' = requests s" "selectedFile ?s' = selectedFile s"
      "fileName ?s' = fileName s" "fileSize ?s' = fileSize s" "sheets ?s' = sheets s"
      "selectedSheet ?s' = selectedSheet s" "showPreview ?s' = showPreview s"
      "previewData ?s' = previewData s" "originalPreviewData ?s' = originalPreviewData s"
      "heap ?s' = heap s"
      unfolding rejected [OF r] by simp_all
  next
    assume a: "fileExtension file \<in> set validExtensions \<and> file_size file \<le> maxSize"
    show "selectedFile ?s' = Some file" "fileName ?s' = file_name file"
      "fileSize ?s' = file_size file" "generalError ?s' = NoMessage"
      "requests ?s' = requests s @ [AnalyzeExcel file]"
      unfolding accepted [OF a] by simp_all
  next
    assume "CHR ''.'' \<notin> set ext"
    then show "fileExtension \<lparr>file_name = base @ ''.'' @ ext, file_size = n\<rparr> =
                 ''.'' @ toLowerCase ext"
      by (rule extension)
  qed (rule limit)
qed

theorem onFileSelected_validation_witness:
  "fileExtension file_csv \<notin> set validExtensions
   \<and> maxSize < file_size file_over_limit
   \<and> fileExtension file_at_limit \<in> set validExtensions \<and> file_size file_at_limit \<le> maxSize
   \<and> generalError (onFileSelected initial (Some file_csv)) = InvalidExcelFile
   \<and> generalError (onFileSelected initial (Some file_over_limit)) = FileTooLarge 10485761
   \<and> requests (onFileSelected initial (Some file_csv)) = []
   \<and> requests (onFileSelected initial (Some file_over_limit)) = []
   \<and> selectedFile (onFileSelected initial (Some file_csv)) = None
   \<and> selectedFile (onFileSelected initial (Some file_over_limit)) = None
   \<and> selectedFile (onFileSelected initial (Some file_at_limit)) = Some file_at_limit
   \<and> requests (onFileSelected initial (Some file_at_limit)) = [AnalyzeExcel file_at_limit]
   \<and> fileExtension \<lparr>file_name = ''Stock.2024'' @ ''.'' @ ''XLSX'', file_size = 1\<rparr> = ''.xlsx''"
proof -
  have e: "fileExtension file_csv \<notin> set validExtensions"
    "fileExtension file_over_limit \<in> set validExtensions"
    "fileExtension file_at_limit \<in> set validExtensions"
    by (simp_all add: file_examples validExtensions_def)
  have z: "maxSize < file_size file_over_limit" "file_size file_at_limit \<le> maxSize"
    by (simp_all add: maxSize_def file_over_limit_def file_at_limit_def)
  have x: "CHR ''.'' \<notin> set ''XLSX''" "toLowerCase ''XLSX'' = ''xlsx''"
    by (simp_all add: toLowerCase_examples)
  have i: "requests initial = []" "selectedFile initial = None"
    "file_size file_over_limit = 10485761"
    by (simp_all add: initial_def file_over_limit_def)
  have csv: "generalError (onFileSelected initial (Some file_csv)) = InvalidExcelFile"
    "requests (onFileSelected initial (Some file_csv)) = []"
    "selectedFile (onFileSelected initial (Some file_csv)) = None"
    using e(1) onFileSelected_validation [of file_csv initial "''XLSX''" "''Stock.2024''" 1]
    by (simp_all add: i)
  have over: "generalError (onFileSelected initial (Some file_over_limit)) = FileTooLarge 10485761"
    "requests (onFileSelected initial (Some file_over_limit)) = []"
    "selectedFile (onFileSelected initial (Some file_over_limit)) = None"
    using e(2) z(1) onFileSelected_validation [of file_over_limit initial "''XLSX''" "''Stock.2024''" 1]
    by (simp_all add: i)
  have limit: "selectedFile (onFileSelected initial (Some file_at_limit)) = Some file_at_limit"
    "requests (onFileSelected initial (Some file_at_limit)) = [AnalyzeExcel file_at_limit]"
    "fileExtension \<lparr>file_name = ''Stock.2024'' @ ''.'' @ ''XLSX'', file_size = 1\<rparr> = ''.xlsx''"
    using e(3) z(2) x onFileSelected_validation [of file_at_limit initial "''XLSX''" "''Stock.2024''" 1]
    by (simp_all add: i)
  show ?thesis
    using e(1,3) z csv over limit by simp
qed

subsection \<open>The commit\<close>

lemma apply_row_counts:
  "created (stats (apply_row action fails c row)) + updated (stats (apply_row action fails c row))
     + skipped (stats (apply_row action fails c row))
     + errorsCount (stats (apply_row action fails c row))
   = created (stats c) + updated (stats c) + skipped (stats c) + errorsCount (stats c) + 1"
  by (simp add: apply_row_def count_error_def count_created_def
        split: Status.splits DuplicateAction.splits option.splits)

lemma apply_row_processed: "processed (apply_row action fails c row) = processed c"
  by (simp add: apply_row_def count_error_def count_created_def
        split: Status.splits DuplicateAction.splits option.splits)

lemma process_row_counts:
  "created (stats (process_row action fails n c row))
     + updated (stats (process_row action fails n c row))
     + skipped (stats (process_row action fails n c row))
     + errorsCount (stats (process_row action fails n c row))
   = created (stats c) + updated (stats c) + skipped (stats c) + errorsCount (stats c) + 1"
  "processed (process_row action fails n c row) = processed c + 1"
  using apply_row_counts [of action fails c row]
  by (simp_all add: process_row_def Let_def apply_row_processed)

lemma foldl_process_row_counts:
  "created (stats (foldl (process_row action fails n) c rows))
     + updated (stats (foldl (process_row action fails n) c rows))
     + skipped (stats (foldl (process_row action fails n) c rows))
     + errorsCount (stats (foldl (process_row action fails n) c rows))
   = created (stats c) + updated (stats c) + skipped (stats c) + errorsCount (stats c)
     + length rows
   \<and> processed (foldl (process_row action fails n) c rows) = processed c + length rows"
proof (induction rows arbitrary: c)
  case Nil
  then show ?case by simp
next
  case (Cons row rows)
  show ?case
    using Cons.IH [of "process_row action fails n c row"]
      process_row_counts [of action fails n c row]
    by simp
qed

lemma commit_scenario:
  "stats (commit [bolt_entry] Update (\<lambda>r. False) staged) =
     \<lparr>created = 1, updated = 1, skipped = 0, errorsCount = 1\<rparr>"
  "messages (commit [bolt_entry] Update (\<lambda>r. False) staged) = [''row 3: price is not a number'']"
  "map entry_price (catalog (commit [bolt_entry] Update (\<lambda>r. False) staged)) = [JNum 6, JNum 2]"
  "map ev_progress (events (commit [bolt_entry] Update (\<lambda>r. False) staged)) = [33, 66, 100, 100]"
  by code_simp+

text \<open>
  C1. The last event of a commit is its complete event; the aggregates it carries are the
  final ones, and \<open>created + updated + skipped + errorsCount\<close> is the number of rows the
  commit processed, which is the number of rows the commit command carried (rows deleted
  from the preview beforehand are not among them).
\<close>

theorem terminal_summary_accounts:
  "ev_type (terminal (commit cat action fails rows)) = Complete
   \<and> ev_data (terminal (commit cat action fails rows)) =
       Some (stats (commit cat action fails rows), messages (commit cat action fails rows))
   \<and> created (stats (commit cat action fails rows)) + updated (stats (commit cat action fails rows))
       + skipped (stats (commit cat action fails rows))
       + errorsCount (stats (commit cat action fails rows))
     = processed (commit cat action fails rows)
   \<and> processed (commit cat action fails rows) = length rows"
  using foldl_process_row_counts [of action fails "length rows"
      "\<lparr>catalog = cat, stats = \<lparr>created = 0, updated = 0, skipped = 0, errorsCount = 0\<rparr>,
        messages = [], processed = 0, events = []\<rparr>" "sort_key temp_id rows"]
  by (simp add: commit_def terminal_def Let_def)

theorem terminal_summary_accounts_witness:
  "ev_data (terminal (commit [bolt_entry] Update (\<lambda>r. False) staged)) =
     Some (\<lparr>created = 1, updated = 1, skipped = 0, errorsCount = 1\<rparr>,
           [''row 3: price is not a number''])
   \<and> processed (commit [bolt_entry] Update (\<lambda>r. False) staged) = 3"
  using terminal_summary_accounts [of "[bolt_entry]" Update "\<lambda>r. False" staged]
  by (simp add: commit_scenario)

end
